theory Spec2Isabelle
  imports Main
begin

section \<open>Toast records\<close>

text \<open>
  The toast controller of the component kit: the provider's queue
  (\<open>messages\<close>, \<open>pendingRemovals\<close>) with the operations \<open>addToast\<close>,
  \<open>removeToast\<close>, \<open>dismissToast\<close>, \<open>updateToast\<close>, the facade built on them,
  the per-toast component (timer, exit transition, gesture), and the render that
  mounts, keeps and unmounts the components by their keys.

  Conventions of the embedding.
  \<^item> An optional key of an object passed by a caller is a \<open>key\<close>: absent, bound to
    \<open>undefined\<close>, or bound to a value. An object spread copies a key that is bound to
    \<open>undefined\<close>, and does not copy an absent one.
  \<^item> A field of a stored message is an \<open>option\<close>: what reading the property gives,
    \<open>None\<close> for \<open>undefined\<close> (the key is absent or bound to \<open>undefined\<close>; the source
    does not tell the two apart on a stored message).
  \<^item> JavaScript numbers holding milliseconds and pixel offsets are \<open>int\<close>.
  \<^item> \<open>Math.random\<close> is not modelled: the string \<open>generateId()\<close> would return is an
    argument (\<open>gen\<close>) of every operation that may call it.
  \<^item> The field \<open>id\<close> is written \<open>id'\<close> and \<open>type\<close> is written \<open>type'\<close>.
\<close>

datatype toast_type = Info | Success | Error | Loading

datatype 'a key = Absent | Undefined | Value 'a

text \<open>Reading a property: \<open>undefined\<close> unless the key is bound to a value.\<close>

definition read :: "'a key \<Rightarrow> 'a option" where
  "read k = (case k of Absent \<Rightarrow> None | Undefined \<Rightarrow> None | Value v \<Rightarrow> Some v)"

text \<open>\<open>interface ToastOptions\<close>.\<close>

record toast_options =
  opt_id :: "string key"
  opt_title :: string
  opt_description :: "string key"
  opt_duration :: "int key"
  opt_className :: "string key"
  opt_classNameTitle :: "string key"
  opt_classNameDescription :: "string key"
  opt_classNameIcon :: "string key"

text \<open>\<open>Partial<ToastData>\<close>: every key optional.\<close>

record toast_partial =
  p_id :: "string key"
  p_title :: "string key"
  p_description :: "string key"
  p_type :: "toast_type key"
  p_duration :: "int key"
  p_className :: "string key"
  p_classNameTitle :: "string key"
  p_classNameDescription :: "string key"
  p_classNameIcon :: "string key"

text \<open>
  \<open>interface ToastData\<close>, as the values are at run time: \<open>addToast\<close> casts a
  \<open>Partial<ToastData>\<close> with \<open>as ToastData\<close>, and \<open>updateToast\<close> spreads another one over
  it, so any field can read \<open>undefined\<close>, the id too.
\<close>

record toast_data =
  id' :: "string option"
  title :: "string option"
  description :: "string option"
  type' :: "toast_type option"
  duration :: "int option"
  className :: "string option"
  classNameTitle :: "string option"
  classNameDescription :: "string option"
  classNameIcon :: "string option"

definition ANIMATION_BUFFER :: int where
  "ANIMATION_BUFFER = 400"

definition MAX_TOASTS :: nat where
  "MAX_TOASTS = 3"

section \<open>The provider\<close>

text \<open>The two \<open>useState\<close> cells of \<open>ToastProvider\<close>.\<close>

record provider_state =
  messages :: "toast_data list"
  pendingRemovals :: "string set"

definition initial_state :: provider_state where
  "initial_state = \<lparr>messages = [], pendingRemovals = {}\<rparr>"

text \<open>
  \<open>xs.slice(-n)\<close>: the last \<open>n\<close> elements, the whole array when it is shorter
  (the subtraction on \<open>nat\<close> stops at 0, as the start index of \<open>slice\<close> does).
\<close>

definition slice_neg :: "nat \<Rightarrow> 'a list \<Rightarrow> 'a list" where
  "slice_neg n xs = drop (length xs - n) xs"

text \<open>
  \<open>v || d\<close> for a string key: \<open>v\<close> is falsy when it reads \<open>undefined\<close> or is the empty
  string.
\<close>

definition or_else :: "string key \<Rightarrow> string \<Rightarrow> string" where
  "or_else v d = (case read v of None \<Rightarrow> d | Some s \<Rightarrow> if s = [] then d else s)"

definition removeToast :: "string \<Rightarrow> provider_state \<Rightarrow> provider_state" where
  "removeToast i s =
     \<lparr>messages = filter (\<lambda>msg. id' msg \<noteq> Some i) (messages s),
      pendingRemovals = pendingRemovals s - {i}\<rparr>"

definition dismissToast :: "string \<Rightarrow> provider_state \<Rightarrow> provider_state" where
  "dismissToast i s = s\<lparr>pendingRemovals := insert i (pendingRemovals s)\<rparr>"




text \<open>
  \<open>{ ...options, id: options.id || generateId() }\<close>: the id is a string, the other
  fields read what the options hold.
\<close>

definition toastData :: "toast_partial \<Rightarrow> string \<Rightarrow> toast_data" where
  "toastData options gen =
     \<lparr>id' = Some (or_else (p_id options) gen),
      title = read (p_title options),
      description = read (p_description options),
      type' = read (p_type options),
      duration = read (p_duration options),
      className = read (p_className options),
      classNameTitle = read (p_classNameTitle options),
      classNameDescription = read (p_classNameDescription options),
      classNameIcon = read (p_classNameIcon options)\<rparr>"

text \<open>
  \<open>addToast\<close>: the updater of \<open>pendingRemovals\<close>, then the updater of \<open>messages\<close>;
  the result is the returned id and the next state. \<open>i\<close> is \<open>toastData.id\<close>.
\<close>

definition addToast :: "toast_partial \<Rightarrow> string \<Rightarrow> provider_state \<Rightarrow> string \<times> provider_state" where
  "addToast options gen s =
     (let t = toastData options gen;
          i = or_else (p_id options) gen;
          pend = pendingRemovals s - {i};
          state = messages s;
          msgs = (if i \<noteq> [] \<and> list_ex (\<lambda>msg. id' msg = Some i) state
                  then map (\<lambda>msg. if id' msg = Some i then t else msg) state
                  else slice_neg MAX_TOASTS (state @ [t]))
      in (i, \<lparr>messages = msgs, pendingRemovals = pend\<rparr>))"

subsection \<open>The facade\<close>

text \<open>\<open>{ ...data, type: ty }\<close> for a \<open>ToastOptions\<close> value \<open>data\<close>: its keys as they are.\<close>

definition spread_options :: "toast_options \<Rightarrow> toast_type \<Rightarrow> toast_partial" where
  "spread_options data ty =
     \<lparr>p_id = opt_id data,
      p_title = Value (opt_title data),
      p_description = opt_description data,
      p_type = Value ty,
      p_duration = opt_duration data,
      p_className = opt_className data,
      p_classNameTitle = opt_classNameTitle data,
      p_classNameDescription = opt_classNameDescription data,
      p_classNameIcon = opt_classNameIcon data\<rparr>"


definition toast_info :: "toast_options \<Rightarrow> string \<Rightarrow> provider_state \<Rightarrow> string \<times> provider_state" where
  "toast_info data gen s = addToast (spread_options data Info) gen s"

definition toast_success :: "toast_options \<Rightarrow> string \<Rightarrow> provider_state \<Rightarrow> string \<times> provider_state" where
  "toast_success data gen s = addToast (spread_options data Success) gen s"

definition toast_error :: "toast_options \<Rightarrow> string \<Rightarrow> provider_state \<Rightarrow> string \<times> provider_state" where
  "toast_error data gen s = addToast (spread_options data Error) gen s"

text \<open>\<open>{ ...data, type: 'loading', duration: 0 }\<close>: the last key written wins.\<close>

definition toast_loading :: "toast_options \<Rightarrow> string \<Rightarrow> provider_state \<Rightarrow> string \<times> provider_state" where
  "toast_loading data gen s =
     addToast ((spread_options data Loading)\<lparr>p_duration := Value 0\<rparr>) gen s"

definition toast_dismiss :: "string \<Rightarrow> provider_state \<Rightarrow> provider_state" where
  "toast_dismiss i s = dismissToast i s"


section \<open>The toast component\<close>

text \<open>
  The props of \<open>Toast\<close> that its logic reads, after the defaults of its parameter list
  (\<open>duration = 3000\<close>, \<open>type = 'info'\<close>); the other props are only rendered.
\<close>

record toast_props =
  prop_id :: "string option"
  prop_type :: toast_type
  prop_duration :: int
  isPendingRemoval :: bool

text \<open>
  What \<open>ToastContainer\<close> passes to the \<open>Toast\<close> of one message. \<open>pendingRemovals\<close> holds
  strings only, so \<open>has\<close> is false for an id that reads \<open>undefined\<close>.
\<close>

definition render_props :: "provider_state \<Rightarrow> toast_data \<Rightarrow> toast_props" where
  "render_props s t =
     \<lparr>prop_id = id' t,
      prop_type = (case type' t of None \<Rightarrow> Info | Some ty \<Rightarrow> ty),
      prop_duration = (case duration t of None \<Rightarrow> 3000 | Some d \<Rightarrow> d),
      isPendingRemoval = (case id' t of None \<Rightarrow> False | Some i \<Rightarrow> i \<in> pendingRemovals s)\<rparr>"

text \<open>
  The state of one mounted \<open>Toast\<close>.
  \<^item> \<open>isAnimatingRef\<close> is the ref of that name.
  \<^item> \<open>dismissTimeout\<close> is the timer of \<open>dismissTimeoutRef\<close> while it is pending, with the
    delay given to \<open>setTimeout\<close>; \<open>None\<close> once it has fired or been cleared.
  \<^item> \<open>exitTransition\<close> holds while the opacity transition started by \<open>handleDismiss\<close>
    (the one whose callback calls \<open>finishDismiss\<close>) is running. Cancelling an animation,
    or assigning another one to the same shared value, ends it with
    \<open>finished = false\<close>, so that its callback does nothing.
  \<^item> \<open>handleDismissCalls\<close>, \<open>onDismissCalls\<close> and \<open>cleanupCalls\<close> count the runs of
    \<open>handleDismiss\<close>, the calls of \<open>onDismiss(id)\<close> and the runs of \<open>cleanup\<close>; the source
    has no such counters, they record its calls.
\<close>

record toast_comp =
  isAnimatingRef :: bool
  dismissTimeout :: "int option"
  exitTransition :: bool
  handleDismissCalls :: nat
  onDismissCalls :: nat
  cleanupCalls :: nat

definition cleanup :: "toast_comp \<Rightarrow> toast_comp" where
  "cleanup c =
     c\<lparr>dismissTimeout := None, exitTransition := False, cleanupCalls := Suc (cleanupCalls c)\<rparr>"

definition finishDismiss :: "toast_comp \<Rightarrow> toast_comp" where
  "finishDismiss c = (let c1 = cleanup c in c1\<lparr>onDismissCalls := Suc (onDismissCalls c1)\<rparr>)"

definition handleDismiss :: "toast_comp \<Rightarrow> toast_comp" where
  "handleDismiss c =
     (let c1 = cleanup c
      in c1\<lparr>exitTransition := True, handleDismissCalls := Suc (handleDismissCalls c1)\<rparr>)"

text \<open>\<open>gesture.onEnd\<close>: past the threshold it dismisses, otherwise it animates back.\<close>

definition gesture_onEnd :: "int \<Rightarrow> toast_comp \<Rightarrow> toast_comp" where
  "gesture_onEnd translationY c =
     (if translationY < - 50 then handleDismiss c else c\<lparr>exitTransition := False\<rparr>)"

text \<open>The callback given to \<open>setTimeout\<close>, run when the pending timer fires.\<close>

definition timer_fire :: "toast_comp \<Rightarrow> toast_comp" where
  "timer_fire c =
     (case dismissTimeout c of
        None \<Rightarrow> c
      | Some d \<Rightarrow>
          (let c1 = c\<lparr>dismissTimeout := None\<rparr>
           in if \<not> isAnimatingRef c1 then handleDismiss c1 else c1))"

text \<open>The exit transition runs to its end: its callback gets \<open>finished = true\<close>.\<close>

definition exit_finished :: "toast_comp \<Rightarrow> toast_comp" where
  "exit_finished c =
     (if exitTransition c then finishDismiss (c\<lparr>exitTransition := False\<rparr>) else c)"

text \<open>
  The body of the effect: the entrance animations take over both shared values, then
  the timer is armed under the source's condition.
\<close>

definition useEffect :: "toast_props \<Rightarrow> toast_comp \<Rightarrow> toast_comp" where
  "useEffect p c =
     (let c1 = c\<lparr>exitTransition := False\<rparr>
      in if (prop_type p \<noteq> Loading \<and> prop_duration p > 0) \<or> isPendingRemoval p
         then c1\<lparr>dismissTimeout :=
                   Some (if isPendingRemoval p then 0 else prop_duration p - ANIMATION_BUFFER)\<rparr>
         else c1)"

definition mount :: "toast_props \<Rightarrow> toast_comp" where
  "mount p =
     useEffect p
       \<lparr>isAnimatingRef = False, dismissTimeout = None, exitTransition = False,
        handleDismissCalls = 0, onDismissCalls = 0, cleanupCalls = 0\<rparr>"

text \<open>The effect returns \<open>cleanup\<close>: it runs when the component is unmounted.\<close>

definition unmount :: "toast_comp \<Rightarrow> toast_comp" where
  "unmount c = cleanup c"



text \<open>What can happen to a mounted toast between two renders.\<close>

datatype toast_event = TimerFire | GestureEnd int | ExitFinished

fun step :: "toast_event \<Rightarrow> toast_comp \<Rightarrow> toast_comp" where
  "step TimerFire c = timer_fire c"
| "step (GestureEnd translationY) c = gesture_onEnd translationY c"
| "step ExitFinished c = exit_finished c"

fun run :: "toast_event list \<Rightarrow> toast_comp \<Rightarrow> toast_comp" where
  "run [] c = c"
| "run (e # es) c = run es (step e c)"

subsection \<open>Rendering the list\<close>




section \<open>Sequences of posts, the specification's upsert, sample data\<close>

text \<open>A sequence of \<open>addToast\<close> calls, each with the id the generator would give.\<close>

fun posts :: "(toast_partial \<times> string) list \<Rightarrow> provider_state \<Rightarrow> provider_state" where
  "posts [] s = s"
| "posts ((options, gen) # ps) s = posts ps (snd (addToast options gen s))"

text \<open>The message a post stores.\<close>

definition posted :: "toast_partial \<times> string \<Rightarrow> toast_data" where
  "posted p = toastData (fst p) (snd p)"

text \<open>
  No post of the sequence is a post of a visible id: each one, when it is made, takes
  the branch of \<open>addToast\<close> that appends (its id is the id of no message, or is the
  empty string, which \<open>addToast\<close> never looks up).
\<close>

fun appended :: "(toast_partial \<times> string) list \<Rightarrow> provider_state \<Rightarrow> bool" where
  "appended [] s = True"
| "appended ((options, gen) # ps) s =
     (\<not> (or_else (p_id options) gen \<noteq> [] \<and>
         list_ex (\<lambda>msg. id' msg = Some (or_else (p_id options) gen)) (messages s)) \<and>
      appended ps (snd (addToast options gen s)))"



text \<open>Sample inputs: options with an id and a title, the message posted from them.\<close>

definition sample_options :: "string \<Rightarrow> toast_options" where
  "sample_options i =
     \<lparr>opt_id = Value i, opt_title = ''hello'', opt_description = Absent, opt_duration = Absent,
      opt_className = Absent, opt_classNameTitle = Absent, opt_classNameDescription = Absent,
      opt_classNameIcon = Absent\<rparr>"

definition sample_msg :: "string \<Rightarrow> toast_data" where
  "sample_msg i = toastData (spread_options (sample_options i) Info) ''g''"

definition sample_props :: "int \<Rightarrow> toast_props" where
  "sample_props d =
     \<lparr>prop_id = Some ''A'', prop_type = Info, prop_duration = d, isPendingRemoval = False\<rparr>"


text \<open>A post of \<open>sample_options\<close> through \<open>toast\<close>.\<close>

definition post_of :: "string \<Rightarrow> toast_partial \<times> string" where
  "post_of i = (spread_options (sample_options i) Info, ''g'')"





section \<open>Auxiliary facts\<close>

subsection \<open>Lists\<close>

lemma slice_neg_step:
  "0 < n \<Longrightarrow> slice_neg n (slice_neg n xs @ [t]) = slice_neg n (xs @ [t])"
  by (cases "length xs \<le> n") (auto simp: slice_neg_def Suc_diff_le)

lemma length_slice_neg: "length (slice_neg n xs) \<le> n"
  by (simp add: slice_neg_def)


lemma filter_fresh: "i \<notin> f ` set xs \<Longrightarrow> filter (\<lambda>x. f x \<noteq> i) xs = xs"
  by (induction xs) auto






subsection \<open>One post, a sequence of posts\<close>

lemma id_toastData: "id' (toastData options gen) = Some (or_else (p_id options) gen)"
  by (simp add: toastData_def)

lemma addToast_fst: "fst (addToast options gen s) = or_else (p_id options) gen"
  by (simp add: addToast_def Let_def)

lemma addToast_pending:
  "pendingRemovals (snd (addToast options gen s)) = pendingRemovals s - {or_else (p_id options) gen}"
  by (simp add: addToast_def Let_def)

lemma addToast_length:
  "length (messages s) \<le> MAX_TOASTS \<Longrightarrow> length (messages (snd (addToast options gen s))) \<le> MAX_TOASTS"
  by (simp add: addToast_def Let_def length_slice_neg)


lemma addToast_visible: "toastData options gen \<in> set (messages (snd (addToast options gen s)))"
proof (cases "or_else (p_id options) gen \<noteq> [] \<and>
    list_ex (\<lambda>msg. id' msg = Some (or_else (p_id options) gen)) (messages s)")
  case True
  then obtain m where "m \<in> set (messages s)" "id' m = Some (or_else (p_id options) gen)"
    by (auto simp: list_ex_iff)
  then have "toastData options gen \<in>
     (\<lambda>msg. if id' msg = Some (or_else (p_id options) gen) then toastData options gen else msg)
       ` set (messages s)"
    by (intro image_eqI [where x = m]) simp_all
  with True show ?thesis
    by (simp add: addToast_def Let_def)
next
  case False
  then have "messages (snd (addToast options gen s))
      = slice_neg MAX_TOASTS (messages s @ [toastData options gen])"
    by (auto simp: addToast_def Let_def)
  then show ?thesis
    by (simp add: slice_neg_def MAX_TOASTS_def)
qed

lemma posted_pair: "posted (options, gen) = toastData options gen"
  by (simp add: posted_def)

lemma posts_length:
  "length (messages s) \<le> MAX_TOASTS \<Longrightarrow> length (messages (posts ps s)) \<le> MAX_TOASTS"
proof (induction ps arbitrary: s)
  case Nil
  then show ?case by simp
next
  case (Cons p ps)
  obtain options gen where p: "p = (options, gen)" by (cases p)
  from Cons.prems have "length (messages (snd (addToast options gen s))) \<le> MAX_TOASTS"
    by (rule addToast_length)
  then show ?case using Cons.IH p by simp
qed

lemma posts_appended:
  "appended ps s \<Longrightarrow> messages s = slice_neg MAX_TOASTS xs \<Longrightarrow>
   messages (posts ps s) = slice_neg MAX_TOASTS (xs @ map posted ps)"
proof (induction ps arbitrary: s xs)
  case Nil
  then show ?case by simp
next
  case (Cons p ps)
  obtain options gen where p: "p = (options, gen)" by (cases p)
  let ?t = "toastData options gen"
  let ?s' = "snd (addToast options gen s)"
  from Cons.prems(1) have branch: "\<not> (or_else (p_id options) gen \<noteq> [] \<and>
         list_ex (\<lambda>msg. id' msg = Some (or_else (p_id options) gen)) (messages s))"
    and rest: "appended ps ?s'"
    by (simp_all add: p)
  from branch have "messages ?s' = slice_neg MAX_TOASTS (messages s @ [?t])"
    by (auto simp: addToast_def Let_def)
  then have m: "messages ?s' = slice_neg MAX_TOASTS (xs @ [?t])"
    using Cons.prems(2) by (simp add: slice_neg_step MAX_TOASTS_def)
  have "messages (posts ps ?s') = slice_neg MAX_TOASTS ((xs @ [?t]) @ map posted ps)"
    using Cons.IH [OF rest m] .
  then show ?case by (simp add: p posted_pair)
qed

subsection \<open>Keys and renders\<close>








subsection \<open>The sample data\<close>

lemmas sample_defs = sample_msg_def sample_options_def spread_options_def toastData_def
  or_else_def read_def post_of_def posted_def sample_props_def

lemmas comp_defs = mount_def useEffect_def cleanup_def unmount_def handleDismiss_def
  finishDismiss_def gesture_onEnd_def timer_fire_def exit_finished_def sample_props_def
  ANIMATION_BUFFER_def

lemma posted_post_of: "posted (post_of i) = sample_msg i"
  by (simp add: sample_defs)

lemma id_sample_msg: "id' (sample_msg i) = Some (if i = [] then ''g'' else i)"
  by (simp add: sample_defs)

lemma or_else_sample: "or_else (p_id (spread_options (sample_options i) ty)) ''g'' = (if i = [] then ''g'' else i)"
  by (simp add: sample_defs)

lemma sample_msg_eq_iff: "sample_msg i = sample_msg j \<longleftrightarrow> id' (sample_msg i) = id' (sample_msg j)"
  by (simp add: sample_defs)

lemma addToast_sample:
  "addToast (spread_options (sample_options i) Info) ''g'' s =
    (if i = [] then ''g'' else i,
     \<lparr>messages = (if list_ex (\<lambda>msg. id' msg = id' (sample_msg i)) (messages s)
                  then map (\<lambda>msg. if id' msg = id' (sample_msg i) then sample_msg i else msg) (messages s)
                  else slice_neg MAX_TOASTS (messages s @ [sample_msg i])),
      pendingRemovals = pendingRemovals s - {if i = [] then ''g'' else i}\<rparr>)"
  by (simp add: addToast_def Let_def sample_msg_def or_else_sample id_toastData)






subsection \<open>The flag of the component\<close>

text \<open>
  No event assigns \<open>isAnimatingRef\<close>: the source only reads it, in the timer's callback.
\<close>

lemma step_isAnimatingRef: "isAnimatingRef (step e c) = isAnimatingRef c"
  by (cases e) (simp_all add: comp_defs Let_def split: option.splits)

lemma run_isAnimatingRef: "isAnimatingRef (run es c) = isAnimatingRef c"
  by (induction es arbitrary: c) (simp_all add: step_isAnimatingRef)

section \<open>C1: eviction at capacity\<close>




section \<open>C2: the guard of the exit path\<close>

text \<open>
  C2. The claim is that the exit path is entered at most once per toast, a flag being
  set when it starts and tested by every later trigger. In the source the flag is
  declared and tested by the timer's callback, and never assigned; \<open>handleDismiss\<close> and
  the gesture's \<open>onEnd\<close> do not test it. On a mounted info toast of duration 3000: after
  the timer has fired, \<open>handleDismiss\<close> has run once and the flag is still false; a
  release of the gesture past the threshold then runs \<open>handleDismiss\<close> a second time, and
  so do two releases in a row.
\<close>

theorem exit_path_entered_twice:
  "handleDismissCalls (run [TimerFire] (mount (sample_props 3000))) = 1 \<and>
   isAnimatingRef (run [TimerFire] (mount (sample_props 3000))) = False \<and>
   handleDismissCalls (run [TimerFire, GestureEnd (- 60)] (mount (sample_props 3000))) = 2 \<and>
   handleDismissCalls (run [GestureEnd (- 60), GestureEnd (- 60)] (mount (sample_props 3000))) = 2"
  by (simp add: comp_defs)

section \<open>C3: capacity and recency\<close>

text \<open>
  C3, as stated, fails when a visible id is posted again: after the posts
  \<open>A, B, C, A, D\<close> the messages are \<open>B, C, D\<close>, while the three most recent posts are
  \<open>C, A, D\<close>. The second post of \<open>A\<close> replaced the first in place, at the oldest
  position, and was evicted.
\<close>

theorem posts_repost_counterexample:
  "messages (posts (map post_of [''A'', ''B'', ''C'', ''A'', ''D'']) initial_state)
     = [sample_msg ''B'', sample_msg ''C'', sample_msg ''D''] \<and>
   slice_neg MAX_TOASTS (map posted (map post_of [''A'', ''B'', ''C'', ''A'', ''D'']))
     = [sample_msg ''C'', sample_msg ''A'', sample_msg ''D''] \<and>
   messages (posts (map post_of [''A'', ''B'', ''C'', ''A'', ''D'']) initial_state)
     \<noteq> slice_neg MAX_TOASTS (map posted (map post_of [''A'', ''B'', ''C'', ''A'', ''D'']))"
  by (simp add: post_of_def addToast_sample id_sample_msg initial_state_def slice_neg_def
      MAX_TOASTS_def posted_post_of [unfolded post_of_def] sample_msg_eq_iff)

text \<open>
  C3, amended. After every sequence of posts from the initial state there are at most
  \<open>MAX_TOASTS\<close> messages; and when no post of the sequence is a post of an id that is
  visible when it is made, the messages are the last \<open>MAX_TOASTS\<close> posted, in the order
  of the posts. (An id may be posted again once its message has been evicted.)
\<close>

theorem posts_bounded_recent:
  "length (messages (posts ps initial_state)) \<le> MAX_TOASTS \<and>
   (appended ps initial_state \<longrightarrow>
      messages (posts ps initial_state) = slice_neg MAX_TOASTS (map posted ps))"
proof
  show "length (messages (posts ps initial_state)) \<le> MAX_TOASTS"
    by (rule posts_length) (simp add: initial_state_def)
next
  show "appended ps initial_state \<longrightarrow>
      messages (posts ps initial_state) = slice_neg MAX_TOASTS (map posted ps)"
  proof
    assume a: "appended ps initial_state"
    have "messages (posts ps initial_state) = slice_neg MAX_TOASTS ([] @ map posted ps)"
      by (rule posts_appended [OF a]) (simp add: initial_state_def slice_neg_def)
    then show "messages (posts ps initial_state) = slice_neg MAX_TOASTS (map posted ps)"
      by simp
  qed
qed

text \<open>
  The amended C3 on the posts \<open>A, B, C, D\<close>, which leave \<open>B, C, D\<close>, and on the posts
  \<open>A, B, C, D, A\<close>, where \<open>A\<close> is posted again after its eviction: they leave \<open>C, D, A\<close>.
\<close>

theorem posts_bounded_recent_witness:
  "appended (map post_of [''A'', ''B'', ''C'', ''D'']) initial_state \<and>
   messages (posts (map post_of [''A'', ''B'', ''C'', ''D'']) initial_state)
     = [sample_msg ''B'', sample_msg ''C'', sample_msg ''D''] \<and>
   appended (map post_of [''A'', ''B'', ''C'', ''D'', ''A'']) initial_state \<and>
   length (messages (posts (map post_of [''A'', ''B'', ''C'', ''D'', ''A'']) initial_state)) \<le> MAX_TOASTS \<and>
   messages (posts (map post_of [''A'', ''B'', ''C'', ''D'', ''A'']) initial_state)
     = [sample_msg ''C'', sample_msg ''D'', sample_msg ''A'']"
proof -
  have a: "appended (map post_of [''A'', ''B'', ''C'', ''D'']) initial_state"
    by (simp add: post_of_def addToast_sample or_else_sample id_sample_msg initial_state_def
        slice_neg_def MAX_TOASTS_def)
  have b: "appended (map post_of [''A'', ''B'', ''C'', ''D'', ''A'']) initial_state"
    by (simp add: post_of_def addToast_sample or_else_sample id_sample_msg initial_state_def
        slice_neg_def MAX_TOASTS_def)
  have "slice_neg MAX_TOASTS (map posted (map post_of [''A'', ''B'', ''C'', ''D'']))
     = [sample_msg ''B'', sample_msg ''C'', sample_msg ''D'']"
    and "slice_neg MAX_TOASTS (map posted (map post_of [''A'', ''B'', ''C'', ''D'', ''A'']))
     = [sample_msg ''C'', sample_msg ''D'', sample_msg ''A'']"
    by (simp_all add: slice_neg_def MAX_TOASTS_def posted_post_of)
  then show ?thesis
    using a b posts_bounded_recent [of "map post_of [''A'', ''B'', ''C'', ''D'']"]
      posts_bounded_recent [of "map post_of [''A'', ''B'', ''C'', ''D'', ''A'']"]
    by (simp add: MAX_TOASTS_def)
qed

section \<open>C4: the loading shorthand\<close>

text \<open>
  C4, as stated, has a duration supplied by the caller override the 0 of \<open>loading\<close>.
  With \<open>duration: 5000\<close> in the options the stored duration is 0: the key \<open>duration: 0\<close>
  is written after the spread of the options.
\<close>

theorem loading_ignores_duration_counterexample:
  "map duration (messages (snd (toast_loading ((sample_options ''A'')\<lparr>opt_duration := Value 5000\<rparr>) ''g'' initial_state)))
     = [Some 0] \<and>
   map duration (messages (snd (toast_loading ((sample_options ''A'')\<lparr>opt_duration := Value 5000\<rparr>) ''g'' initial_state)))
     \<noteq> [Some 5000]"
  by (simp add: toast_loading_def addToast_def Let_def toastData_def spread_options_def
      sample_options_def or_else_def read_def initial_state_def slice_neg_def MAX_TOASTS_def)

text \<open>
  C4, amended. \<open>toast.loading\<close> is \<open>addToast\<close> with the category \<open>loading\<close> and the
  duration 0 whatever duration the options carry: changing the duration of the options
  does not change the result, the posted message is visible with category \<open>loading\<close>
  and duration 0, and mounting it arms no timer.
\<close>

theorem loading_forces_zero:
  "toast_loading (data\<lparr>opt_duration := d\<rparr>) gen s = toast_loading data gen s \<and>
   toast_loading data gen s = addToast (spread_options (data\<lparr>opt_duration := Value 0\<rparr>) Loading) gen s \<and>
   (\<exists>t \<in> set (messages (snd (toast_loading data gen s))).
      id' t = Some (fst (toast_loading data gen s)) \<and> type' t = Some Loading \<and> duration t = Some 0 \<and>
      dismissTimeout (mount (render_props (snd (toast_loading data gen s)) t)) = None)"
proof -
  let ?o = "(spread_options data Loading)\<lparr>p_duration := Value 0\<rparr>"
  let ?t = "toastData ?o gen"
  let ?s = "snd (addToast ?o gen s)"
  have a: "toast_loading (data\<lparr>opt_duration := d\<rparr>) gen s = toast_loading data gen s"
    by (simp add: toast_loading_def spread_options_def)
  have b: "toast_loading data gen s = addToast (spread_options (data\<lparr>opt_duration := Value 0\<rparr>) Loading) gen s"
    by (simp add: toast_loading_def spread_options_def)
  have v: "?t \<in> set (messages ?s)"
    by (rule addToast_visible)
  have i: "id' ?t = Some (fst (addToast ?o gen s))"
    by (simp add: addToast_fst id_toastData)
  have f: "type' ?t = Some Loading \<and> duration ?t = Some 0"
    by (simp add: toastData_def spread_options_def read_def)
  have "or_else (p_id ?o) gen \<notin> pendingRemovals ?s"
    by (simp add: addToast_pending)
  with f have m: "dismissTimeout (mount (render_props ?s ?t)) = None"
    by (simp add: mount_def useEffect_def render_props_def id_toastData)
  from v i f m have "\<exists>t \<in> set (messages ?s).
      id' t = Some (fst (addToast ?o gen s)) \<and> type' t = Some Loading \<and> duration t = Some 0 \<and>
      dismissTimeout (mount (render_props ?s t)) = None"
    by blast
  then have c: "\<exists>t \<in> set (messages (snd (toast_loading data gen s))).
      id' t = Some (fst (toast_loading data gen s)) \<and> type' t = Some Loading \<and> duration t = Some 0 \<and>
      dismissTimeout (mount (render_props (snd (toast_loading data gen s)) t)) = None"
    by (simp add: toast_loading_def)
  from a b c show ?thesis by blast
qed

text \<open>
  The amended C4 on the initial state: options with the duration 5000 give the result
  of options without one, and the visible message \<open>A\<close> has the duration 0.
\<close>

theorem loading_forces_zero_witness:
  "toast_loading ((sample_options ''A'')\<lparr>opt_duration := Value 5000\<rparr>) ''g'' initial_state
     = toast_loading (sample_options ''A'') ''g'' initial_state \<and>
   (\<exists>t \<in> set (messages (snd (toast_loading (sample_options ''A'') ''g'' initial_state))).
      id' t = Some ''A'' \<and> type' t = Some Loading \<and> duration t = Some 0)"
proof -
  have "fst (toast_loading (sample_options ''A'') ''g'' initial_state) = ''A''"
    by (simp add: toast_loading_def addToast_fst spread_options_def
        sample_options_def or_else_def read_def)
  then show ?thesis
    using loading_forces_zero [where data = "sample_options ''A''" and d = "Value 5000"
        and gen = "''g''" and s = initial_state]
    by auto
qed

section \<open>C5: the delay of the timer\<close>

text \<open>
  C5, as stated, has the delay clamped at 0. For an info toast of duration 100 that is
  not pending removal, the delay given to \<open>setTimeout\<close> is \<open>100 - 400 = -300\<close>.
\<close>

theorem timer_delay_negative_counterexample:
  "prop_type (sample_props 100) \<noteq> Loading \<and> 0 < prop_duration (sample_props 100) \<and>
   \<not> isPendingRemoval (sample_props 100) \<and>
   dismissTimeout (mount (sample_props 100)) = Some (- 300) \<and>
   dismissTimeout (mount (sample_props 100)) \<noteq> Some (max 0 (100 - ANIMATION_BUFFER))"
  by (simp add: comp_defs)

text \<open>
  C5, amended. For a toast that is not loading, has a positive duration and is not
  pending removal, the timer is armed with the delay \<open>duration - ANIMATION_BUFFER\<close>,
  at mount and at every run of the effect; that is \<open>max 0 (duration - ANIMATION_BUFFER)\<close>
  exactly when the duration is at least \<open>ANIMATION_BUFFER\<close>.
\<close>

theorem timer_delay_unclamped:
  assumes "prop_type p \<noteq> Loading" and "0 < prop_duration p" and "\<not> isPendingRemoval p"
  shows "dismissTimeout (mount p) = Some (prop_duration p - ANIMATION_BUFFER) \<and>
         dismissTimeout (useEffect p c) = Some (prop_duration p - ANIMATION_BUFFER) \<and>
         (dismissTimeout (mount p) = Some (max 0 (prop_duration p - ANIMATION_BUFFER))
            \<longleftrightarrow> ANIMATION_BUFFER \<le> prop_duration p)"
  using assms by (auto simp: mount_def useEffect_def)

text \<open>
  The amended C5 at the default duration 3000: the delay is 2600.
\<close>

theorem timer_delay_unclamped_witness:
  "prop_type (sample_props 3000) \<noteq> Loading \<and> 0 < prop_duration (sample_props 3000) \<and>
   \<not> isPendingRemoval (sample_props 3000) \<and>
   dismissTimeout (mount (sample_props 3000)) = Some 2600"
proof -
  have h: "prop_type (sample_props 3000) \<noteq> Loading" "0 < prop_duration (sample_props 3000)"
    "\<not> isPendingRemoval (sample_props 3000)"
    by (simp_all add: sample_props_def)
  have "prop_duration (sample_props 3000) - ANIMATION_BUFFER = 2600"
    by (simp add: sample_props_def ANIMATION_BUFFER_def)
  then show ?thesis
    using h timer_delay_unclamped [OF h] by simp
qed

section \<open>C6: dismissing\<close>

text \<open>
  C6, as stated, has \<open>dismiss\<close> leave the state alone for an id that is not visible.
  On the initial state, \<open>dismiss\<close> of \<open>x\<close> puts \<open>x\<close> into \<open>pendingRemovals\<close>, which then
  holds an id of no message.
\<close>

theorem dismiss_unknown_counterexample:
  "Some ''x'' \<notin> id' ` set (messages initial_state) \<and>
   toast_dismiss ''x'' initial_state \<noteq> initial_state \<and>
   pendingRemovals (toast_dismiss ''x'' initial_state) = {''x''} \<and>
   \<not> Some ` pendingRemovals (toast_dismiss ''x'' initial_state)
       \<subseteq> id' ` set (messages (toast_dismiss ''x'' initial_state))"
  by (simp add: toast_dismiss_def dismissToast_def initial_state_def)

text \<open>
  C6, amended. \<open>dismiss\<close> never changes the messages and adds the id to
  \<open>pendingRemovals\<close> whether it is visible or not; it is idempotent, and it leaves the
  state unchanged exactly when the id is already in \<open>pendingRemovals\<close>.
\<close>

theorem dismiss_marks_any_id:
  "messages (toast_dismiss i s) = messages s \<and>
   pendingRemovals (toast_dismiss i s) = insert i (pendingRemovals s) \<and>
   toast_dismiss i (toast_dismiss i s) = toast_dismiss i s \<and>
   (toast_dismiss i s = s \<longleftrightarrow> i \<in> pendingRemovals s)"
proof -
  have "(s\<lparr>pendingRemovals := insert i (pendingRemovals s)\<rparr> = s) = (i \<in> pendingRemovals s)"
  proof
    assume "s\<lparr>pendingRemovals := insert i (pendingRemovals s)\<rparr> = s"
    then have "pendingRemovals (s\<lparr>pendingRemovals := insert i (pendingRemovals s)\<rparr>) = pendingRemovals s"
      by simp
    then show "i \<in> pendingRemovals s" by auto
  next
    assume "i \<in> pendingRemovals s"
    then show "s\<lparr>pendingRemovals := insert i (pendingRemovals s)\<rparr> = s"
      by (simp add: insert_absorb)
  qed
  then show ?thesis
    by (simp add: toast_dismiss_def dismissToast_def)
qed

text \<open>
  The amended C6 on the initial state: dismissing \<open>x\<close> marks it, shows nothing, and a
  second dismissal changes nothing.
\<close>

theorem dismiss_marks_any_id_witness:
  "messages (toast_dismiss ''x'' initial_state) = [] \<and>
   pendingRemovals (toast_dismiss ''x'' initial_state) = {''x''} \<and>
   toast_dismiss ''x'' (toast_dismiss ''x'' initial_state) = toast_dismiss ''x'' initial_state \<and>
   ''x'' \<notin> pendingRemovals initial_state"
proof -
  have "messages initial_state = [] \<and> pendingRemovals initial_state = {}"
    by (simp add: initial_state_def)
  then show ?thesis
    using dismiss_marks_any_id [of "''x''" initial_state]
    by simp
qed

section \<open>C7: posting a visible id again\<close>




section \<open>C8: updating\<close>




section \<open>C9: removal is idempotent\<close>

text \<open>
  C9. \<open>removeToast\<close> is idempotent: applied twice it gives the state it gives applied
  once; and on an id that is neither the id of a message nor in \<open>pendingRemovals\<close> it
  returns the state it was given (it is a total function: there is no error branch).
\<close>

theorem removeToast_idempotent:
  "removeToast i (removeToast i s) = removeToast i s \<and>
   (Some i \<notin> id' ` set (messages s) \<and> i \<notin> pendingRemovals s \<longrightarrow> removeToast i s = s)"
proof
  show "removeToast i (removeToast i s) = removeToast i s"
    by (simp add: removeToast_def)
next
  show "Some i \<notin> id' ` set (messages s) \<and> i \<notin> pendingRemovals s \<longrightarrow> removeToast i s = s"
  proof
    assume absent: "Some i \<notin> id' ` set (messages s) \<and> i \<notin> pendingRemovals s"
    then have "filter (\<lambda>msg. id' msg \<noteq> Some i) (messages s) = messages s"
      by (intro filter_fresh) simp
    moreover from absent have "pendingRemovals s - {i} = pendingRemovals s"
      by simp
    ultimately show "removeToast i s = s"
      by (simp add: removeToast_def)
  qed
qed

text \<open>
  C9 on a queue holding \<open>A\<close>, for the absent id \<open>B\<close>.
\<close>

theorem removeToast_idempotent_witness:
  "removeToast ''B'' (removeToast ''B'' \<lparr>messages = [sample_msg ''A''], pendingRemovals = {''A''}\<rparr>)
     = removeToast ''B'' \<lparr>messages = [sample_msg ''A''], pendingRemovals = {''A''}\<rparr> \<and>
   Some ''B'' \<notin> id' ` set [sample_msg ''A''] \<and> ''B'' \<notin> {''A''} \<and>
   removeToast ''B'' \<lparr>messages = [sample_msg ''A''], pendingRemovals = {''A''}\<rparr>
     = \<lparr>messages = [sample_msg ''A''], pendingRemovals = {''A''}\<rparr>"
proof -
  have absent: "Some ''B'' \<notin> id' ` set [sample_msg ''A''] \<and> ''B'' \<notin> {''A''}"
    by (simp add: id_sample_msg)
  show ?thesis
    using absent
      removeToast_idempotent [of "''B''" "\<lparr>messages = [sample_msg ''A''], pendingRemovals = {''A''}\<rparr>"]
    by simp
qed

section \<open>C10: a post clears the pending mark\<close>

text \<open>
  C10. \<open>addToast\<close> returns the id of the posted message, which is the id of the options
  when they carry a non-empty one, and that id is not in \<open>pendingRemovals\<close> afterwards,
  whether or not it was visible before. The posted message is visible and rendered as
  not pending, so the timer armed when it mounts is the one of the ordinary lifecycle
  (none for a loading toast or a duration that is not positive), never the immediate
  one of a toast pending removal.
\<close>

theorem post_clears_pending:
  "id' (toastData options gen) = Some (fst (addToast options gen s)) \<and>
   (p_id options = Value X \<and> X \<noteq> [] \<longrightarrow> fst (addToast options gen s) = X) \<and>
   fst (addToast options gen s) \<notin> pendingRemovals (snd (addToast options gen s)) \<and>
   toastData options gen \<in> set (messages (snd (addToast options gen s))) \<and>
   \<not> isPendingRemoval (render_props (snd (addToast options gen s)) (toastData options gen)) \<and>
   dismissTimeout (mount (render_props (snd (addToast options gen s)) (toastData options gen)))
     = (if prop_type (render_props s (toastData options gen)) \<noteq> Loading
           \<and> 0 < prop_duration (render_props s (toastData options gen))
        then Some (prop_duration (render_props s (toastData options gen)) - ANIMATION_BUFFER)
        else None)"
proof -
  let ?t = "toastData options gen"
  let ?s = "snd (addToast options gen s)"
  have a: "id' ?t = Some (fst (addToast options gen s))"
    by (simp add: addToast_fst id_toastData)
  have b: "p_id options = Value X \<and> X \<noteq> [] \<longrightarrow> fst (addToast options gen s) = X"
    by (simp add: addToast_fst or_else_def read_def)
  have c: "fst (addToast options gen s) \<notin> pendingRemovals ?s"
    by (simp add: addToast_pending addToast_fst)
  have d: "?t \<in> set (messages ?s)"
    by (rule addToast_visible)
  from c have e: "\<not> isPendingRemoval (render_props ?s ?t)"
    by (simp add: render_props_def id_toastData addToast_fst)
  from c have f: "dismissTimeout (mount (render_props ?s ?t))
     = (if prop_type (render_props s ?t) \<noteq> Loading \<and> 0 < prop_duration (render_props s ?t)
        then Some (prop_duration (render_props s ?t) - ANIMATION_BUFFER) else None)"
    by (simp add: mount_def useEffect_def render_props_def id_toastData addToast_fst)
  from a b c d e f show ?thesis by blast
qed

text \<open>
  C10 for a stale mark: \<open>A\<close> is in \<open>pendingRemovals\<close> and not visible; after posting
  \<open>A\<close> the mark is gone and the timer of the mounted toast has the delay 2600.
\<close>

theorem post_clears_pending_witness:
  "Some ''A'' \<notin> id' ` set (messages \<lparr>messages = [], pendingRemovals = {''A''}\<rparr>) \<and>
   p_id (fst (post_of ''A'')) = Value ''A'' \<and>
   ''A'' \<notin> pendingRemovals (snd (addToast (fst (post_of ''A'')) ''g'' \<lparr>messages = [], pendingRemovals = {''A''}\<rparr>)) \<and>
   dismissTimeout (mount (render_props
       (snd (addToast (fst (post_of ''A'')) ''g'' \<lparr>messages = [], pendingRemovals = {''A''}\<rparr>))
       (sample_msg ''A''))) = Some 2600"
proof -
  have t: "toastData (fst (post_of ''A'')) ''g'' = sample_msg ''A''"
    by (simp add: post_of_def sample_msg_def)
  have p: "p_id (fst (post_of ''A'')) = Value ''A'' \<and> ''A'' \<noteq> []"
    by (simp add: post_of_def spread_options_def sample_options_def)
  have r: "prop_type (render_props \<lparr>messages = [], pendingRemovals = {''A''}\<rparr> (sample_msg ''A'')) = Info \<and>
    prop_duration (render_props \<lparr>messages = [], pendingRemovals = {''A''}\<rparr> (sample_msg ''A'')) = 3000"
    by (simp add: render_props_def sample_defs)
  show ?thesis
    using p r post_clears_pending [of "fst (post_of ''A'')" "''g''"
        "\<lparr>messages = [], pendingRemovals = {''A''}\<rparr>" "''A''"]
    by (auto simp: t id_sample_msg ANIMATION_BUFFER_def)
qed

end
